theory Spec2Isabelle
  imports Main
begin

section \<open>Non-collapsed samplers: model classes and compatibility declarations\<close>

text \<open>
  The module \<^verbatim>\<open>imm/samplers/noncollapsed.py\<close> declares three concrete samplers. Each
  one inherits its algorithm from a generic sampler and adds two class attributes: the
  set of process-model classes and the set of mixture-model classes it may be bound to.

  Python classes form an open universe. The classes the module imports by name are
  constructors of their own; any other class a caller may hand over is represented by
  its name.
\<close>

datatype process_model = DP | MFM | OtherProcessModel string

datatype mixture_model =
    CollapsedConjugateGaussianMixture
  | ConjugateGaussianMixture
  | NonconjugateGaussianMixture
  | OtherMixtureModel string

datatype sampler = GibbsSampler | RGMSSampler | SliceSampler

text \<open>
  \<^verbatim>\<open>compatible_process_models = set([DP, MFM])\<close> for the Gibbs and the restricted Gibbs
  merge-split sampler, \<^verbatim>\<open>set([DP])\<close> for the slice sampler.
\<close>

fun compatible_process_models :: "sampler \<Rightarrow> process_model set" where
  "compatible_process_models GibbsSampler = set [DP, MFM]"
| "compatible_process_models RGMSSampler = set [DP, MFM]"
| "compatible_process_models SliceSampler = set [DP]"

fun compatible_mixture_models :: "sampler \<Rightarrow> mixture_model set" where
  "compatible_mixture_models GibbsSampler =
     set [CollapsedConjugateGaussianMixture, ConjugateGaussianMixture,
          NonconjugateGaussianMixture]"
| "compatible_mixture_models RGMSSampler =
     set [ConjugateGaussianMixture, NonconjugateGaussianMixture]"
| "compatible_mixture_models SliceSampler =
     set [ConjugateGaussianMixture, NonconjugateGaussianMixture]"

section \<open>Errors\<close>

text \<open>
  The two error kinds of the interface, and the computation error that a numeric failure
  inside an iteration propagates as. An incompatibility names the offending model and
  the allowed set; an invalid parameter names the parameter.
\<close>

datatype model = ProcessModel process_model | MixtureModel mixture_model

datatype parameter = Param_m | Param_scheme | Param_max_iter | Param_warmup | Param_c_n

datatype error =
    InvalidParameterError parameter
  | IncompatibleModelError model "model set"
  | ComputationError

fun is_incompatible_model :: "error + 'a \<Rightarrow> bool" where
  "is_incompatible_model (Inl (IncompatibleModelError offender allowed)) = True"
| "is_incompatible_model r = False"

fun is_invalid_parameter :: "error + 'a \<Rightarrow> bool" where
  "is_invalid_parameter (Inl (InvalidParameterError p)) = True"
| "is_invalid_parameter r = False"

section \<open>Binding a sampler to its models\<close>

text \<open>
  Modelled from the spec: the validation of the two models, which the generic sampler
  base classes of \<^verbatim>\<open>imm/samplers/generic.py\<close> perform and which is not part of this
  module. The concrete type of each model must be a member of the sampler's declared
  set; a mismatch is an \<^verbatim>\<open>IncompatibleModelError\<close> naming the offending model and the
  allowed set.
\<close>

definition check_models :: "sampler \<Rightarrow> process_model \<Rightarrow> mixture_model \<Rightarrow> error + unit" where
  "check_models k pm mm =
     (if pm \<notin> compatible_process_models k
      then Inl (IncompatibleModelError (ProcessModel pm)
                  (ProcessModel ` compatible_process_models k))
      else if mm \<notin> compatible_mixture_models k
      then Inl (IncompatibleModelError (MixtureModel mm)
                  (MixtureModel ` compatible_mixture_models k))
      else Inr ())"

record sampler_instance =
  kind :: sampler
  process :: process_model
  mixture :: mixture_model

text \<open>
  Modelled from the spec: the constructor of a concrete sampler, also inherited from the
  generic base classes. It validates the two models and binds them.
\<close>

definition new_sampler :: "sampler \<Rightarrow> process_model \<Rightarrow> mixture_model \<Rightarrow> error + sampler_instance" where
  "new_sampler k pm mm =
     (case check_models k pm mm of
        Inl e \<Rightarrow> Inl e
      | Inr u \<Rightarrow> Inr \<lparr>kind = k, process = pm, mixture = mm\<rparr>)"

section \<open>The inference entry point\<close>

text \<open>
  The arguments of \<^verbatim>\<open>infer(x_n, c_n, [m], [scheme], max_iter, warmup, random_state)\<close>
  beside the data. Each is \<^verbatim>\<open>None or ...\<close> in the docstrings of the module: \<open>None\<close> is
  an omitted argument. A field that a sampler's signature does not have (\<open>m\<close> for the
  slice sampler, \<open>scheme\<close> for all but the merge-split sampler) is not read by it.
\<close>

record infer_args =
  arg_m :: "int option"
  arg_scheme :: "int list option"
  arg_max_iter :: "int option"
  arg_warmup :: "int option"
  arg_random_state :: "nat option"

text \<open>
  Modelled from the spec: the defaults of the omitted arguments, which the signatures of
  the generic \<^verbatim>\<open>infer\<close> methods fix and the docstrings of this module document:
  \<open>m\<close> is 10, \<open>scheme\<close> is (5,1,1,5), \<open>max_iter\<close> is 1000, and \<open>warmup\<close> is half of
  \<open>max_iter\<close>; \<open>warmup\<close> is an integer, so the half is the integer quotient.
\<close>

definition the_m :: "infer_args \<Rightarrow> int" where
  "the_m a = (case arg_m a of None \<Rightarrow> 10 | Some v \<Rightarrow> v)"

definition the_scheme :: "infer_args \<Rightarrow> int list" where
  "the_scheme a = (case arg_scheme a of None \<Rightarrow> [5, 1, 1, 5] | Some v \<Rightarrow> v)"

definition the_max_iter :: "infer_args \<Rightarrow> int" where
  "the_max_iter a = (case arg_max_iter a of None \<Rightarrow> 1000 | Some v \<Rightarrow> v)"

definition the_warmup :: "infer_args \<Rightarrow> int" where
  "the_warmup a = (case arg_warmup a of None \<Rightarrow> the_max_iter a div 2 | Some v \<Rightarrow> v)"

text \<open>Which samplers take \<open>m\<close>, and which take \<open>scheme\<close>.\<close>

fun has_m :: "sampler \<Rightarrow> bool" where
  "has_m GibbsSampler = True"
| "has_m RGMSSampler = True"
| "has_m SliceSampler = False"

fun has_scheme :: "sampler \<Rightarrow> bool" where
  "has_scheme RGMSSampler = True"
| "has_scheme k = False"

text \<open>A scheme is a 4-tuple of non-negative integers.\<close>

definition well_formed_scheme :: "int list \<Rightarrow> bool" where
  "well_formed_scheme s = (length s = 4 \<and> list_all (\<lambda>v. 0 \<le> v) s)"

text \<open>
  Modelled from the spec: the validation of the parameters of \<^verbatim>\<open>infer\<close>, done by the
  generic samplers. An \<^verbatim>\<open>InvalidParameterError\<close> is raised for \<open>m \<le> 0\<close>,
  \<open>max_iter \<le> 0\<close>, \<open>warmup\<close> outside \<open>0 \<le> warmup < max_iter\<close>, a malformed scheme, and
  data and initial assignment of different lengths.
\<close>

definition check_parameters :: "sampler \<Rightarrow> 'x list \<Rightarrow> int list \<Rightarrow> infer_args \<Rightarrow> error + unit" where
  "check_parameters k x_n c_n a =
     (if has_m k \<and> the_m a \<le> 0 then Inl (InvalidParameterError Param_m)
      else if has_scheme k \<and> \<not> well_formed_scheme (the_scheme a)
      then Inl (InvalidParameterError Param_scheme)
      else if the_max_iter a \<le> 0 then Inl (InvalidParameterError Param_max_iter)
      else if the_warmup a < 0 \<or> the_max_iter a \<le> the_warmup a
      then Inl (InvalidParameterError Param_warmup)
      else if length x_n \<noteq> length c_n then Inl (InvalidParameterError Param_c_n)
      else Inr ())"

subsection \<open>The chain and its iterations\<close>

text \<open>
  The state of one run: the assignment vector, the parameter draws (none for a collapsed
  mixture model) and the state of the random number generator. A snapshot is the pair of
  the first two.
\<close>

record ('p, 'g) chain =
  assignment :: "int list"
  parameters :: "'p option"
  generator :: 'g

definition snapshot :: "('p, 'g) chain \<Rightarrow> int list \<times> 'p option" where
  "snapshot s = (assignment s, parameters s)"

text \<open>
  The generic algorithms themselves (the Gibbs scan, the split-merge move, the slice
  step) and the models they call are not part of this module. They enter as a parameter:
  how the chain starts from the data, the initial assignment and the random state, and
  what one iteration does to it, given the bound sampler, \<open>m\<close>, the scheme and the data.
  One iteration may fail with a computation error.
\<close>

record ('x, 'p, 'g) algorithm =
  start :: "sampler_instance \<Rightarrow> 'x list \<Rightarrow> int list \<Rightarrow> nat option \<Rightarrow> ('p, 'g) chain"
  scan :: "sampler_instance \<Rightarrow> int \<Rightarrow> int list \<Rightarrow> 'x list \<Rightarrow> ('p, 'g) chain
             \<Rightarrow> error + ('p, 'g) chain"

text \<open>The chain after \<open>n\<close> iterations; the first failure ends it.\<close>

fun run_scans :: "('s \<Rightarrow> error + 's) \<Rightarrow> nat \<Rightarrow> 's \<Rightarrow> error + 's" where
  "run_scans step 0 s = Inr s"
| "run_scans step (Suc n) s =
     (case step s of Inl e \<Rightarrow> Inl e | Inr s' \<Rightarrow> run_scans step n s')"

text \<open>
  Modelled from the spec: the sampling loop of the generic samplers,
  \<^verbatim>\<open>
  for t in range(max_iter):
      state = iterate(state)
      if t >= warmup: trace.append(snapshot(state))
  return trace
  \<close>
  with \<open>t\<close> the index of the iteration and \<open>r\<close> the number of iterations left: a snapshot
  is recorded after each iteration once the warmup boundary has passed.
\<close>

fun sample_loop ::
  "(('p, 'g) chain \<Rightarrow> error + ('p, 'g) chain) \<Rightarrow> nat \<Rightarrow> nat \<Rightarrow> nat \<Rightarrow> ('p, 'g) chain
     \<Rightarrow> (int list \<times> 'p option) list \<Rightarrow> error + (int list \<times> 'p option) list" where
  "sample_loop step w t 0 s tr = Inr tr"
| "sample_loop step w t (Suc r) s tr =
     (case step s of
        Inl e \<Rightarrow> Inl e
      | Inr s' \<Rightarrow>
          sample_loop step w (Suc t) r s' (if w \<le> t then tr @ [snapshot s'] else tr))"

text \<open>
  Modelled from the spec: \<^verbatim>\<open>infer\<close> of a bound sampler. All validation comes first,
  the models' and then the parameters'; only then the chain is started and iterated.
\<close>

definition infer ::
  "('x, 'p, 'g) algorithm \<Rightarrow> sampler_instance \<Rightarrow> 'x list \<Rightarrow> int list \<Rightarrow> infer_args
     \<Rightarrow> error + (int list \<times> 'p option) list" where
  "infer alg smp x_n c_n a =
     (case check_models (kind smp) (process smp) (mixture smp) of
        Inl e \<Rightarrow> Inl e
      | Inr u \<Rightarrow>
         (case check_parameters (kind smp) x_n c_n a of
            Inl e \<Rightarrow> Inl e
          | Inr v \<Rightarrow>
              sample_loop (scan alg smp (the_m a) (the_scheme a) x_n)
                (nat (the_warmup a)) 0 (nat (the_max_iter a))
                (start alg smp x_n c_n (arg_random_state a)) []))"

subsection \<open>Two stand-in algorithms\<close>

text \<open>
  For the worked examples: an algorithm whose every iteration fails, and one whose
  iteration counts the draws it has made and keeps the count as its parameter draw.
\<close>

definition stalled_algorithm :: "(nat, nat, nat) algorithm" where
  "stalled_algorithm =
     \<lparr>start = (\<lambda>smp x_n c_n rs.
         \<lparr>assignment = c_n, parameters = None,
          generator = (case rs of None \<Rightarrow> 0 | Some v \<Rightarrow> v)\<rparr>),
      scan = (\<lambda>smp m sch x_n s. Inl ComputationError)\<rparr>"

definition counting_algorithm :: "(nat, nat, nat) algorithm" where
  "counting_algorithm =
     \<lparr>start = (\<lambda>smp x_n c_n rs.
         \<lparr>assignment = c_n, parameters = None,
          generator = (case rs of None \<Rightarrow> 0 | Some v \<Rightarrow> v)\<rparr>),
      scan = (\<lambda>smp m sch x_n s.
         Inr (s\<lparr>parameters := Some (generator s), generator := Suc (generator s)\<rparr>))\<rparr>"

definition no_args :: infer_args where
  "no_args = \<lparr>arg_m = None, arg_scheme = None, arg_max_iter = None, arg_warmup = None,
     arg_random_state = None\<rparr>"

section \<open>Compatibility of the concrete samplers\<close>

text \<open>
  A sampler that was constructed is bound to the very models it was given, and both are in
  its declared sets.
\<close>

lemma new_sampler_binds:
  assumes "new_sampler k pm mm = Inr smp"
  shows "smp = \<lparr>kind = k, process = pm, mixture = mm\<rparr>
    \<and> pm \<in> compatible_process_models k \<and> mm \<in> compatible_mixture_models k"
  using assms by (auto simp: new_sampler_def check_models_def split: sum.splits if_splits)

text \<open>
  C1. For each of the three samplers: when the class of the process model or the class of
  the mixture model is not in the sampler's declared set, construction fails with an
  \<^verbatim>\<open>IncompatibleModelError\<close> that names the offending model and the allowed set, so no
  sampler is bound to any model, the supplied one or another. \<^verbatim>\<open>infer\<close> on such a
  binding fails with the same error whatever the algorithm, the data and the parameters
  are: in particular with an algorithm whose first iteration would fail, and with invalid
  parameters. No iteration has run.
\<close>

theorem incompatible_model_rejected:
  assumes "pm \<notin> compatible_process_models k \<or> mm \<notin> compatible_mixture_models k"
  shows "is_incompatible_model (new_sampler k pm mm)
    \<and> new_sampler k pm mm =
        Inl (if pm \<notin> compatible_process_models k
             then IncompatibleModelError (ProcessModel pm)
                    (ProcessModel ` compatible_process_models k)
             else IncompatibleModelError (MixtureModel mm)
                    (MixtureModel ` compatible_mixture_models k))
    \<and> is_incompatible_model (infer alg \<lparr>kind = k, process = pm, mixture = mm\<rparr> x_n c_n a)
    \<and> infer alg \<lparr>kind = k, process = pm, mixture = mm\<rparr> x_n c_n a =
        Inl (if pm \<notin> compatible_process_models k
             then IncompatibleModelError (ProcessModel pm)
                    (ProcessModel ` compatible_process_models k)
             else IncompatibleModelError (MixtureModel mm)
                    (MixtureModel ` compatible_mixture_models k))"
  using assms by (auto simp: new_sampler_def infer_def check_models_def)

theorem incompatible_model_rejected_witness:
  "OtherProcessModel ''HDP'' \<notin> compatible_process_models GibbsSampler
   \<and> new_sampler GibbsSampler (OtherProcessModel ''HDP'') ConjugateGaussianMixture =
       Inl (IncompatibleModelError (ProcessModel (OtherProcessModel ''HDP''))
              {ProcessModel DP, ProcessModel MFM})
   \<and> infer stalled_algorithm
        \<lparr>kind = GibbsSampler, process = OtherProcessModel ''HDP'',
         mixture = ConjugateGaussianMixture\<rparr> [1, 2] [0, 0]
        \<lparr>arg_m = Some 0, arg_scheme = None, arg_max_iter = None, arg_warmup = None,
         arg_random_state = None\<rparr> =
       Inl (IncompatibleModelError (ProcessModel (OtherProcessModel ''HDP''))
              {ProcessModel DP, ProcessModel MFM})
   \<and> CollapsedConjugateGaussianMixture \<notin> compatible_mixture_models RGMSSampler
   \<and> new_sampler RGMSSampler MFM CollapsedConjugateGaussianMixture =
       Inl (IncompatibleModelError (MixtureModel CollapsedConjugateGaussianMixture)
              {MixtureModel ConjugateGaussianMixture,
               MixtureModel NonconjugateGaussianMixture})"
proof -
  have h1: "OtherProcessModel ''HDP'' \<notin> compatible_process_models GibbsSampler" by simp
  have h2: "CollapsedConjugateGaussianMixture \<notin> compatible_mixture_models RGMSSampler" by simp
  note a = incompatible_model_rejected [of "OtherProcessModel ''HDP''" GibbsSampler
      ConjugateGaussianMixture stalled_algorithm "[1, 2]" "[0, 0]"
      "\<lparr>arg_m = Some 0, arg_scheme = None, arg_max_iter = None, arg_warmup = None,
         arg_random_state = None\<rparr>", OF disjI1 [OF h1]]
  note b = incompatible_model_rejected [of MFM RGMSSampler CollapsedConjugateGaussianMixture
      stalled_algorithm "[]" "[]" no_args, OF disjI2 [OF h2]]
  show ?thesis using h1 h2 a b by simp
qed

text \<open>
  C2. The slice sampler's declared set of process models is exactly \<open>{DP}\<close>.
  Constructing it with an MFM process model fails with an \<^verbatim>\<open>IncompatibleModelError\<close>
  naming MFM, whatever the mixture model is; the constructor takes no data, and
  \<^verbatim>\<open>infer\<close> on such a binding fails the same way for every algorithm and all data.
\<close>

theorem slice_sampler_rejects_mfm:
  "compatible_process_models SliceSampler = {DP}
   \<and> new_sampler SliceSampler MFM mm =
       Inl (IncompatibleModelError (ProcessModel MFM) {ProcessModel DP})
   \<and> is_incompatible_model (new_sampler SliceSampler MFM mm)
   \<and> infer alg \<lparr>kind = SliceSampler, process = MFM, mixture = mm\<rparr> x_n c_n a =
       Inl (IncompatibleModelError (ProcessModel MFM) {ProcessModel DP})"
  by (simp add: new_sampler_def check_models_def infer_def)

text \<open>
  C7. The Gibbs sampler declares both process models, DP and MFM, and all three Gaussian
  mixture models, collapsed conjugate, conjugate and non-conjugate. Each of the six
  combinations passes the validation, and the constructor binds exactly the models it
  was given.
\<close>

theorem gibbs_sampler_accepts_all:
  "compatible_process_models GibbsSampler = {DP, MFM}
   \<and> compatible_mixture_models GibbsSampler =
       {CollapsedConjugateGaussianMixture, ConjugateGaussianMixture,
        NonconjugateGaussianMixture}
   \<and> list_all (\<lambda>pm. list_all (\<lambda>mm.
         check_models GibbsSampler pm mm = Inr ()
         \<and> new_sampler GibbsSampler pm mm =
             Inr \<lparr>kind = GibbsSampler, process = pm, mixture = mm\<rparr>)
       [CollapsedConjugateGaussianMixture, ConjugateGaussianMixture,
        NonconjugateGaussianMixture]) [DP, MFM]"
  by (simp add: new_sampler_def check_models_def)

text \<open>
  C9. The collapsed conjugate Gaussian mixture is in the declared set of neither the
  merge-split sampler nor the slice sampler, so binding either to it fails the
  validation with an \<^verbatim>\<open>IncompatibleModelError\<close>, whatever the process model is. A
  sampler declares it exactly when it is the Gibbs sampler.
\<close>

theorem collapsed_mixture_only_gibbs:
  "CollapsedConjugateGaussianMixture \<notin> compatible_mixture_models RGMSSampler
   \<and> CollapsedConjugateGaussianMixture \<notin> compatible_mixture_models SliceSampler
   \<and> (CollapsedConjugateGaussianMixture \<in> compatible_mixture_models k) = (k = GibbsSampler)
   \<and> is_incompatible_model (check_models RGMSSampler pm CollapsedConjugateGaussianMixture)
   \<and> is_incompatible_model (check_models SliceSampler pm CollapsedConjugateGaussianMixture)
   \<and> is_incompatible_model (new_sampler RGMSSampler pm CollapsedConjugateGaussianMixture)
   \<and> is_incompatible_model (new_sampler SliceSampler pm CollapsedConjugateGaussianMixture)"
  by (cases k) (simp_all add: new_sampler_def check_models_def)

text \<open>
  C10. Every one of the three samplers declares DP as a process model and both the
  conjugate and the non-conjugate Gaussian mixture as mixture models. So a DP process
  model with either of these two mixture models passes the validation of each sampler,
  and the constructor binds them.
\<close>

theorem dp_noncollapsed_accepted_by_all:
  "DP \<in> compatible_process_models k
   \<and> ConjugateGaussianMixture \<in> compatible_mixture_models k
   \<and> NonconjugateGaussianMixture \<in> compatible_mixture_models k
   \<and> check_models k DP ConjugateGaussianMixture = Inr ()
   \<and> check_models k DP NonconjugateGaussianMixture = Inr ()
   \<and> new_sampler k DP ConjugateGaussianMixture =
       Inr \<lparr>kind = k, process = DP, mixture = ConjugateGaussianMixture\<rparr>
   \<and> new_sampler k DP NonconjugateGaussianMixture =
       Inr \<lparr>kind = k, process = DP, mixture = NonconjugateGaussianMixture\<rparr>"
  by (cases k) (simp_all add: new_sampler_def check_models_def)

section \<open>Validation of the parameters\<close>

text \<open>
  C3. For a sampler that was constructed, each invalid configuration makes \<^verbatim>\<open>infer\<close>
  fail with an \<^verbatim>\<open>InvalidParameterError\<close>: \<open>m \<le> 0\<close> where the sampler takes \<open>m\<close>, a
  malformed scheme where it takes a scheme, \<open>max_iter \<le> 0\<close>, \<open>warmup\<close> negative or not
  below \<open>max_iter\<close>, and an initial assignment whose length is not the data's. The error
  is the same for every algorithm, also one whose first iteration would fail: it is
  raised before any iteration.
\<close>

theorem invalid_parameter_rejected:
  assumes "new_sampler k pm mm = Inr smp"
    and "(has_m k \<and> the_m a \<le> 0) \<or> (has_scheme k \<and> \<not> well_formed_scheme (the_scheme a))
       \<or> the_max_iter a \<le> 0 \<or> the_warmup a < 0 \<or> the_max_iter a \<le> the_warmup a
       \<or> length x_n \<noteq> length c_n"
  shows "is_invalid_parameter (infer alg smp x_n c_n a)
    \<and> (\<exists>p. \<forall>alg' :: ('x, 'p, 'g) algorithm.
          infer alg' smp x_n c_n a = Inl (InvalidParameterError p))"
proof -
  from assms(1) have smp: "smp = \<lparr>kind = k, process = pm, mixture = mm\<rparr>"
    and ok: "check_models k pm mm = Inr ()"
    by (auto simp: new_sampler_def split: sum.splits)
  from assms(2) have "\<exists>p. check_parameters k x_n c_n a = Inl (InvalidParameterError p)"
    unfolding check_parameters_def by auto
  then obtain p where "check_parameters k x_n c_n a = Inl (InvalidParameterError p)" ..
  with smp ok show ?thesis by (simp add: infer_def)
qed

theorem invalid_parameter_rejected_witness:
  "new_sampler GibbsSampler DP ConjugateGaussianMixture =
     Inr \<lparr>kind = GibbsSampler, process = DP, mixture = ConjugateGaussianMixture\<rparr>
   \<and> is_invalid_parameter
       (infer stalled_algorithm
          \<lparr>kind = GibbsSampler, process = DP, mixture = ConjugateGaussianMixture\<rparr>
          [1, 2] [0, 0] (no_args\<lparr>arg_m := Some 0\<rparr>))
   \<and> is_invalid_parameter
       (infer stalled_algorithm
          \<lparr>kind = GibbsSampler, process = DP, mixture = ConjugateGaussianMixture\<rparr>
          [1, 2] [0, 0] (no_args\<lparr>arg_max_iter := Some 0\<rparr>))
   \<and> is_invalid_parameter
       (infer stalled_algorithm
          \<lparr>kind = GibbsSampler, process = DP, mixture = ConjugateGaussianMixture\<rparr>
          [1, 2] [0, 0] (no_args\<lparr>arg_max_iter := Some 20, arg_warmup := Some 20\<rparr>))"
proof -
  let ?smp = "\<lparr>kind = GibbsSampler, process = DP, mixture = ConjugateGaussianMixture\<rparr>"
  have c: "new_sampler GibbsSampler DP ConjugateGaussianMixture = Inr ?smp"
    by (simp add: new_sampler_def check_models_def)
  have m0: "has_m GibbsSampler \<and> the_m (no_args\<lparr>arg_m := Some 0\<rparr>) \<le> 0"
    by (simp add: the_m_def)
  have i0: "the_max_iter (no_args\<lparr>arg_max_iter := Some 0\<rparr>) \<le> 0"
    by (simp add: the_max_iter_def)
  have w0: "the_max_iter (no_args\<lparr>arg_max_iter := Some 20, arg_warmup := Some 20\<rparr>)
      \<le> the_warmup (no_args\<lparr>arg_max_iter := Some 20, arg_warmup := Some 20\<rparr>)"
    by (simp add: the_max_iter_def the_warmup_def)
  note a = invalid_parameter_rejected [OF c, of "no_args\<lparr>arg_m := Some 0\<rparr>"
      "[1, 2::nat]" "[0, 0]" stalled_algorithm, THEN conjunct1]
  note b = invalid_parameter_rejected [OF c, of "no_args\<lparr>arg_max_iter := Some 0\<rparr>"
      "[1, 2::nat]" "[0, 0]" stalled_algorithm, THEN conjunct1]
  note d = invalid_parameter_rejected [OF c,
      of "no_args\<lparr>arg_max_iter := Some 20, arg_warmup := Some 20\<rparr>"
      "[1, 2::nat]" "[0, 0]" stalled_algorithm, THEN conjunct1]
  from c a m0 b i0 d w0 show ?thesis by blast
qed

section \<open>The trace\<close>

text \<open>
  The loop appends to the trace the snapshots of the chain after the iterations
  \<open>max w t, \<dots>, t + r - 1\<close>, in this order, where the chain after iteration \<open>j\<close> is the
  one that \<open>j + 1 - t\<close> iterations make of the current one.
\<close>

lemma upt_max_step:
  "w \<le> t \<Longrightarrow> [max w t..<t + Suc r] = t # [max w (Suc t)..<Suc t + r]"
  by (simp add: upt_conv_Cons max_def)

lemma run_scans_shift:
  "step s = Inr s' \<Longrightarrow> t < Suc j \<Longrightarrow> run_scans step (Suc j - t) s = run_scans step (Suc j - Suc t) s'"
proof -
  assume st: "step s = Inr s'" and "t < Suc j"
  then have "Suc j - t = Suc (j - t)" by arith
  with st show ?thesis by simp
qed

lemma map_shift:
  assumes "step s = Inr s'"
  shows "map (\<lambda>j. f (run_scans step (Suc j - t) s)) [max w (Suc t)..<n]
       = map (\<lambda>j. f (run_scans step (Suc j - Suc t) s')) [max w (Suc t)..<n]"
proof (rule map_cong [OF refl])
  fix j assume "j \<in> set [max w (Suc t)..<n]"
  then have "t < Suc j" by auto
  with assms show "f (run_scans step (Suc j - t) s) = f (run_scans step (Suc j - Suc t) s')"
    by (simp add: run_scans_shift)
qed

lemma sample_loop_trace:
  "sample_loop step w t r s tr = Inr tr' \<Longrightarrow>
   tr' = tr @ map (\<lambda>j. snapshot (projr (run_scans step (Suc j - t) s))) [max w t..<t + r]"
proof (induction r arbitrary: t s tr)
  case 0
  then show ?case by simp
next
  case (Suc r)
  define F where "F = (\<lambda>t s j. snapshot (projr (run_scans step (Suc j - t) s)))"
  define L where "L = [max w (Suc t)..<Suc t + r]"
  from Suc.prems obtain s' where st: "step s = Inr s'"
    and rest: "sample_loop step w (Suc t) r s' (if w \<le> t then tr @ [snapshot s'] else tr) = Inr tr'"
    by (auto split: sum.splits)
  have ih: "tr' = (if w \<le> t then tr @ [snapshot s'] else tr) @ map (F (Suc t) s') L"
    unfolding F_def L_def by (rule Suc.IH [OF rest])
  have sh: "map (F (Suc t) s') L = map (F t s) L"
    unfolding F_def L_def
    by (rule map_shift [where f = "\<lambda>x. snapshot (projr x)", symmetric]) (rule st)
  have goal: "tr' = tr @ map (F t s) [max w t..<t + Suc r]"
  proof (cases "w \<le> t")
    case True
    have "F t s t = snapshot s'" using st by (simp add: F_def)
    moreover have "[max w t..<t + Suc r] = t # L"
      unfolding L_def by (rule upt_max_step [OF True])
    ultimately have "map (F t s) [max w t..<t + Suc r] = snapshot s' # map (F t s) L"
      by (simp only: list.map)
    with ih sh True show ?thesis by (simp only: if_True append.simps append_assoc)
  next
    case False
    then have "max w (Suc t) = max w t" by (simp add: max_def)
    then have "[max w t..<t + Suc r] = L" unfolding L_def by simp
    with ih sh False show ?thesis by (simp only: if_False)
  qed
  then show ?case unfolding F_def .
qed

lemma sample_loop_total:
  "run_scans step r s = Inr sf \<Longrightarrow> \<exists>tr'. sample_loop step w t r s tr = Inr tr'"
  by (induction r arbitrary: t s tr) (auto split: sum.splits)

lemma run_scans_prefix:
  "run_scans step n s = Inr sf \<Longrightarrow> k \<le> n \<Longrightarrow> \<exists>sk. run_scans step k s = Inr sk"
proof (induction k arbitrary: n s)
  case 0 then show ?case by simp
next
  case (Suc k)
  then obtain n' where n: "n = Suc n'" by (cases n) auto
  with Suc.prems obtain s' where "step s = Inr s'" "run_scans step n' s' = Inr sf"
    by (auto split: sum.splits)
  with Suc.IH [of n' s'] Suc.prems n show ?case by auto
qed



lemma trace_as_results:
  assumes "run_scans step n s = Inr sf"
  shows "map Inr (map (\<lambda>j. snapshot (projr (run_scans step (Suc j - 0) s))) [w..<n])
       = map (\<lambda>j. map_sum id snapshot (run_scans step (Suc j) s)) [w..<n]"
  unfolding map_map
proof (rule map_cong [OF refl])
  fix j assume "j \<in> set [w..<n]"
  then have "Suc j \<le> n" by simp
  from run_scans_prefix [OF assms this] obtain sk where "run_scans step (Suc j) s = Inr sk" ..
  then show "(Inr \<circ> (\<lambda>j. snapshot (projr (run_scans step (Suc j - 0) s)))) j
      = map_sum id snapshot (run_scans step (Suc j) s)"
    by simp
qed

text \<open>
  C4. For a constructed sampler and valid parameters (\<open>m > 0\<close> and a well-formed scheme
  where the sampler takes them, \<open>max_iter > 0\<close>, \<open>0 \<le> warmup < max_iter\<close>, data and
  initial assignment of one length), when none of the \<open>max_iter\<close> iterations fails with a
  computation error, \<^verbatim>\<open>infer\<close> returns a trace; its length is \<open>max_iter - warmup\<close>, and
  its entries are the snapshots (assignment, parameters) of the chain after the
  iterations \<open>warmup, \<dots>, max_iter - 1\<close>, one for each and in this order.
\<close>

theorem infer_trace_length:
  assumes "new_sampler k pm mm = Inr smp"
    and "has_m k \<longrightarrow> 0 < the_m a"
    and "has_scheme k \<longrightarrow> well_formed_scheme (the_scheme a)"
    and "0 < the_max_iter a" and "0 \<le> the_warmup a" and "the_warmup a < the_max_iter a"
    and "length x_n = length c_n"
    and "run_scans (scan alg smp (the_m a) (the_scheme a) x_n) (nat (the_max_iter a))
           (start alg smp x_n c_n (arg_random_state a)) = Inr s_end"
  shows "\<exists>tr. infer alg smp x_n c_n a = Inr tr
     \<and> int (length tr) = the_max_iter a - the_warmup a
     \<and> map Inr tr =
         map (\<lambda>t. map_sum id snapshot
                (run_scans (scan alg smp (the_m a) (the_scheme a) x_n) (Suc t)
                   (start alg smp x_n c_n (arg_random_state a))))
           [nat (the_warmup a)..<nat (the_max_iter a)]"
proof -
  let ?step = "scan alg smp (the_m a) (the_scheme a) x_n"
  let ?s0 = "start alg smp x_n c_n (arg_random_state a)"
  let ?w = "nat (the_warmup a)"
  let ?n = "nat (the_max_iter a)"
  from assms(1) have smp: "smp = \<lparr>kind = k, process = pm, mixture = mm\<rparr>"
    and ok: "check_models k pm mm = Inr ()"
    by (auto simp: new_sampler_def split: sum.splits)
  from assms(2-7) have par: "check_parameters k x_n c_n a = Inr ()"
    by (auto simp: check_parameters_def)
  have inf: "infer alg smp x_n c_n a = sample_loop ?step ?w 0 ?n ?s0 []"
    using smp ok par by (simp add: infer_def)
  from sample_loop_total [OF assms(8)]
  obtain tr where tr: "sample_loop ?step ?w 0 ?n ?s0 [] = Inr tr"
    by blast
  from sample_loop_trace [OF tr]
  have eq: "tr = map (\<lambda>j. snapshot (projr (run_scans ?step (Suc j - 0) ?s0))) [?w..<?n]"
    by simp
  have len: "length tr = ?n - ?w" by (subst eq) simp
  have "int (?n - ?w) = the_max_iter a - the_warmup a"
    using assms(4-6) by simp
  with len have l: "int (length tr) = the_max_iter a - the_warmup a" by simp
  have res: "infer alg smp x_n c_n a = Inr tr" using inf tr by simp
  have ord: "map Inr tr = map (\<lambda>t. map_sum id snapshot (run_scans ?step (Suc t) ?s0)) [?w..<?n]"
    by (subst eq) (rule trace_as_results [OF assms(8)])
  show ?thesis by (rule exI [of _ tr]) (intro conjI res l ord)
qed

theorem infer_trace_length_witness:
  "new_sampler GibbsSampler DP ConjugateGaussianMixture =
     Inr \<lparr>kind = GibbsSampler, process = DP, mixture = ConjugateGaussianMixture\<rparr>
   \<and> (\<exists>tr. infer counting_algorithm
          \<lparr>kind = GibbsSampler, process = DP, mixture = ConjugateGaussianMixture\<rparr>
          [1, 2] [0, 0]
          (no_args\<lparr>arg_max_iter := Some 4, arg_warmup := Some 2,
             arg_random_state := Some 7\<rparr>) = Inr tr
        \<and> int (length tr) = 4 - 2
        \<and> tr = [([0, 0], Some 9), ([0, 0], Some 10)])"
proof -
  let ?smp = "\<lparr>kind = GibbsSampler, process = DP, mixture = ConjugateGaussianMixture\<rparr>"
  let ?a = "no_args\<lparr>arg_max_iter := Some 4, arg_warmup := Some 2,
     arg_random_state := Some 7\<rparr>"
  note defs = the_m_def the_scheme_def the_max_iter_def the_warmup_def no_args_def
  have c: "new_sampler GibbsSampler DP ConjugateGaussianMixture = Inr ?smp"
    by (simp add: new_sampler_def check_models_def)
  have r: "run_scans (scan counting_algorithm ?smp (the_m ?a) (the_scheme ?a) [1, 2])
      (nat (the_max_iter ?a)) (start counting_algorithm ?smp [1, 2] [0, 0] (arg_random_state ?a))
      = Inr \<lparr>assignment = [0, 0], parameters = Some 10, generator = 11\<rparr>"
    by (simp add: defs counting_algorithm_def eval_nat_numeral)
  have "\<exists>tr. infer counting_algorithm ?smp [1, 2] [0, 0] ?a = Inr tr
      \<and> int (length tr) = the_max_iter ?a - the_warmup ?a
      \<and> map Inr tr =
         map (\<lambda>t. map_sum id snapshot
                (run_scans (scan counting_algorithm ?smp (the_m ?a) (the_scheme ?a) [1, 2])
                   (Suc t) (start counting_algorithm ?smp [1, 2] [0, 0] (arg_random_state ?a))))
           [nat (the_warmup ?a)..<nat (the_max_iter ?a)]"
    by (rule infer_trace_length [OF c _ _ _ _ _ _ r]) (simp_all add: defs)
  then obtain tr where tr: "infer counting_algorithm ?smp [1, 2] [0, 0] ?a = Inr tr"
    and len: "int (length tr) = the_max_iter ?a - the_warmup ?a"
    by blast
  have val: "infer counting_algorithm ?smp [1, 2] [0, 0] ?a
      = Inr [([0, 0], Some 9), ([0, 0], Some 10)]"
    by (simp add: infer_def check_models_def check_parameters_def defs counting_algorithm_def
        snapshot_def eval_nat_numeral)
  from tr val have "tr = [([0, 0], Some 9), ([0, 0], Some 10)]" by simp
  moreover from len have "int (length tr) = 4 - 2" by (simp add: defs)
  ultimately show ?thesis using c tr by blast
qed

text \<open>
  Conversely, a trace is returned only after all validation has passed, and every trace
  that is returned has this length.
\<close>

lemma infer_returned_trace:
  assumes "infer alg smp x_n c_n a = Inr tr"
  shows "int (length tr) = the_max_iter a - the_warmup a
    \<and> 0 \<le> the_warmup a \<and> the_warmup a < the_max_iter a \<and> length x_n = length c_n
    \<and> process smp \<in> compatible_process_models (kind smp)
    \<and> mixture smp \<in> compatible_mixture_models (kind smp)"
proof -
  let ?step = "scan alg smp (the_m a) (the_scheme a) x_n"
  let ?s0 = "start alg smp x_n c_n (arg_random_state a)"
  from assms have ok: "check_models (kind smp) (process smp) (mixture smp) = Inr ()"
    and par: "check_parameters (kind smp) x_n c_n a = Inr ()"
    and loop: "sample_loop ?step (nat (the_warmup a)) 0 (nat (the_max_iter a)) ?s0 [] = Inr tr"
    by (auto simp: infer_def split: sum.splits)
  from ok have mods: "process smp \<in> compatible_process_models (kind smp)"
      "mixture smp \<in> compatible_mixture_models (kind smp)"
    by (auto simp: check_models_def split: if_splits)
  from par have rng: "0 < the_max_iter a" "0 \<le> the_warmup a" "the_warmup a < the_max_iter a"
      "length x_n = length c_n"
    by (auto simp: check_parameters_def split: if_splits)
  from sample_loop_trace [OF loop]
  have "length tr = nat (the_max_iter a) - nat (the_warmup a)" by simp
  with rng have "int (length tr) = the_max_iter a - the_warmup a" by simp
  with mods rng show ?thesis by simp
qed

section \<open>Defaults\<close>

text \<open>\<^verbatim>\<open>infer\<close> reads its optional arguments only through their effective values.\<close>

lemma infer_effective:
  assumes "the_m a = the_m b" and "the_scheme a = the_scheme b"
    and "the_max_iter a = the_max_iter b" and "the_warmup a = the_warmup b"
    and "arg_random_state a = arg_random_state b"
  shows "infer alg smp x_n c_n a = infer alg smp x_n c_n b"
proof -
  have cp: "check_parameters k x_n c_n a = check_parameters k x_n c_n b" for k
    using assms by (simp add: check_parameters_def)
  show ?thesis unfolding infer_def cp assms by (rule refl)
qed

text \<open>
  C8. An omitted \<open>m\<close> is 10, an omitted \<open>scheme\<close> is (5,1,1,5), an omitted \<open>max_iter\<close> is
  1000 and an omitted \<open>warmup\<close> is half of \<open>max_iter\<close> (the integer quotient; 500 when
  both are omitted): whatever the other arguments are, a call that omits one of them
  behaves as the call that passes the documented default.
\<close>

theorem documented_defaults:
  "the_m (a\<lparr>arg_m := None\<rparr>) = 10
   \<and> the_scheme (a\<lparr>arg_scheme := None\<rparr>) = [5, 1, 1, 5]
   \<and> the_max_iter (a\<lparr>arg_max_iter := None\<rparr>) = 1000
   \<and> the_warmup (a\<lparr>arg_warmup := None\<rparr>) = the_max_iter a div 2
   \<and> the_warmup (a\<lparr>arg_max_iter := None, arg_warmup := None\<rparr>) = 500
   \<and> infer alg smp x_n c_n (a\<lparr>arg_m := None\<rparr>) = infer alg smp x_n c_n (a\<lparr>arg_m := Some 10\<rparr>)
   \<and> infer alg smp x_n c_n (a\<lparr>arg_scheme := None\<rparr>)
       = infer alg smp x_n c_n (a\<lparr>arg_scheme := Some [5, 1, 1, 5]\<rparr>)
   \<and> infer alg smp x_n c_n (a\<lparr>arg_max_iter := None\<rparr>)
       = infer alg smp x_n c_n (a\<lparr>arg_max_iter := Some 1000\<rparr>)
   \<and> infer alg smp x_n c_n (a\<lparr>arg_warmup := None\<rparr>)
       = infer alg smp x_n c_n (a\<lparr>arg_warmup := Some (the_max_iter a div 2)\<rparr>)"
proof -
  note defs = the_m_def the_scheme_def the_max_iter_def the_warmup_def
  have vals: "the_m (a\<lparr>arg_m := None\<rparr>) = 10"
    "the_scheme (a\<lparr>arg_scheme := None\<rparr>) = [5, 1, 1, 5]"
    "the_max_iter (a\<lparr>arg_max_iter := None\<rparr>) = 1000"
    "the_warmup (a\<lparr>arg_warmup := None\<rparr>) = the_max_iter a div 2"
    "the_warmup (a\<lparr>arg_max_iter := None, arg_warmup := None\<rparr>) = 500"
    by (simp_all add: defs)
  have m: "infer alg smp x_n c_n (a\<lparr>arg_m := None\<rparr>)
      = infer alg smp x_n c_n (a\<lparr>arg_m := Some 10\<rparr>)"
    by (rule infer_effective) (simp_all add: defs split: option.splits)
  have s: "infer alg smp x_n c_n (a\<lparr>arg_scheme := None\<rparr>)
      = infer alg smp x_n c_n (a\<lparr>arg_scheme := Some [5, 1, 1, 5]\<rparr>)"
    by (rule infer_effective) (simp_all add: defs split: option.splits)
  have i: "infer alg smp x_n c_n (a\<lparr>arg_max_iter := None\<rparr>)
      = infer alg smp x_n c_n (a\<lparr>arg_max_iter := Some 1000\<rparr>)"
    by (rule infer_effective) (simp_all add: defs split: option.splits)
  have w: "infer alg smp x_n c_n (a\<lparr>arg_warmup := None\<rparr>)
      = infer alg smp x_n c_n (a\<lparr>arg_warmup := Some (the_max_iter a div 2)\<rparr>)"
    by (rule infer_effective) (simp_all add: defs split: option.splits)
  from vals m s i w show ?thesis by blast
qed

end
